theory Spec2Isabelle
  imports Main "HOL-Library.AList"
begin

section \<open>Values, errors and dictionaries\<close>

text \<open>
  The script \<^verbatim>\<open>basic_cleaning_and_filtering.py\<close> works on JSON records. A value is what
  \<^verbatim>\<open>json.loads\<close> produces (numbers are the integers of the corpus); a JSON object is a
  Python dict, kept as an association list in insertion order. Strings are ASCII text.
\<close>

datatype pyval =
    PNone
  | PBool bool
  | PInt int
  | PStr string
  | PList "pyval list"
  | PDict "(string \<times> pyval) list"

type_synonym pydict = "(string \<times> pyval) list"

text \<open>
  An exception is a value. \<open>Exception msg\<close> is what the two \<^verbatim>\<open>raise Exception(...)\<close>
  statements of the source raise; the other constructors are the errors of Python's
  built-ins and of pandas and numpy.
\<close>

datatype error =
    Exception string
  | KeyError string
  | ValueError
  | TypeError
  | AttributeError
  | IndexError
  | JSONDecodeError

text \<open>
  \<^verbatim>\<open>d[k] = v\<close> on a dict is \<^const>\<open>AList.update\<close>: an existing key keeps its place, a new
  key goes to the end. \<^verbatim>\<open>k in d\<close> and \<^verbatim>\<open>d[k]\<close> read through \<^const>\<open>map_of\<close>.
\<close>

definition dict_contains :: "('k \<times> 'v) list \<Rightarrow> 'k \<Rightarrow> bool" where
  "dict_contains d k = (map_of d k \<noteq> None)"

text \<open>\<^verbatim>\<open>v[key]\<close> with a string key: only a dict can be subscripted by a string.\<close>

fun py_getitem :: "pyval \<Rightarrow> string \<Rightarrow> error + pyval" where
  "py_getitem (PDict d) k = (case map_of d k of None \<Rightarrow> Inl (KeyError k) | Some v \<Rightarrow> Inr v)"
| "py_getitem _ k = Inl TypeError"

text \<open>
  \<^verbatim>\<open>for x in v\<close>: a list gives its elements, a string its characters (as one-character
  strings), a dict its keys; nothing else is iterable.
\<close>

fun py_iter :: "pyval \<Rightarrow> error + pyval list" where
  "py_iter (PList xs) = Inr xs"
| "py_iter (PStr s) = Inr (map (\<lambda>c. PStr [c]) s)"
| "py_iter (PDict d) = Inr (map (\<lambda>kv. PStr (fst kv)) d)"
| "py_iter _ = Inl TypeError"

section \<open>Integers as text: \<^verbatim>\<open>int(s)\<close> and \<^verbatim>\<open>str(n)\<close>\<close>

definition is_digit :: "char \<Rightarrow> bool" where
  "is_digit c = (48 \<le> (of_char c :: nat) \<and> (of_char c :: nat) \<le> 57)"

definition digit_val :: "char \<Rightarrow> nat" where
  "digit_val c = of_char c - 48"

definition digit_char :: "nat \<Rightarrow> char" where
  "digit_char d = char_of (48 + d)"

text \<open>The white space \<^verbatim>\<open>int()\<close> skips at both ends of its argument.\<close>

definition is_space :: "char \<Rightarrow> bool" where
  "is_space c = (c \<in> {CHR 0x20, CHR 0x09, CHR 0x0A, CHR 0x0B, CHR 0x0C, CHR 0x0D,
                       CHR 0x1C, CHR 0x1D, CHR 0x1E, CHR 0x1F})"

definition py_strip :: "string \<Rightarrow> string" where
  "py_strip s = rev (dropWhile is_space (rev (dropWhile is_space s)))"

text \<open>
  The digits of a decimal literal, after the first one: a single underscore may stand
  between two digits.
\<close>

fun parse_digits :: "nat \<Rightarrow> string \<Rightarrow> nat option" where
  "parse_digits acc [] = Some acc"
| "parse_digits acc [c] = (if is_digit c then Some (acc * 10 + digit_val c) else None)"
| "parse_digits acc (c # d # cs) =
     (if is_digit c then parse_digits (acc * 10 + digit_val c) (d # cs)
      else if c = CHR ''_'' \<and> is_digit d then parse_digits (acc * 10 + digit_val d) cs
      else None)"

definition parse_decimal :: "string \<Rightarrow> nat option" where
  "parse_decimal s =
     (case s of [] \<Rightarrow> None
      | c # cs \<Rightarrow> if is_digit c then parse_digits (digit_val c) cs else None)"

text \<open>\<^verbatim>\<open>int(s)\<close> in base 10: white space stripped, an optional sign, then the digits.\<close>

definition py_int :: "string \<Rightarrow> error + int" where
  "py_int s =
     (case py_strip s of
        [] \<Rightarrow> Inl ValueError
      | c # cs \<Rightarrow>
          if c = CHR ''-'' then
            (case parse_decimal cs of None \<Rightarrow> Inl ValueError | Some n \<Rightarrow> Inr (- int n))
          else if c = CHR ''+'' then
            (case parse_decimal cs of None \<Rightarrow> Inl ValueError | Some n \<Rightarrow> Inr (int n))
          else
            (case parse_decimal (c # cs) of None \<Rightarrow> Inl ValueError | Some n \<Rightarrow> Inr (int n)))"

text \<open>\<^verbatim>\<open>str(n)\<close> of an integer: its decimal digits, with a minus sign when negative.\<close>

fun str_nat :: "nat \<Rightarrow> string" where
  "str_nat n = (if n < 10 then [digit_char n] else str_nat (n div 10) @ [digit_char (n mod 10)])"

declare str_nat.simps [simp del]

definition py_str :: "int \<Rightarrow> string" where
  "py_str i = (if i < 0 then CHR ''-'' # str_nat (nat (- i)) else str_nat (nat i))"

section \<open>Identifier disambiguation: \<^verbatim>\<open>get_min_qid\<close>\<close>

text \<open>
  \<^verbatim>\<open>
  def get_min_qid(qids):
    qids_int = [int(qid.replace('Q', '')) for qid in qids]
    return f'Q{min(qids_int)}'
  \<close>
  \<^verbatim>\<open>qid.replace('Q', '')\<close> deletes every \<^verbatim>\<open>Q\<close> of the string; an element that is not
  a string has no \<^verbatim>\<open>replace\<close>. The comprehension stops at the first element that fails.
  \<^verbatim>\<open>min\<close> of an empty list raises \<^verbatim>\<open>ValueError\<close>.
\<close>

definition replace_Q :: "string \<Rightarrow> string" where
  "replace_Q qid = filter (\<lambda>c. c \<noteq> CHR ''Q'') qid"

fun qids_int :: "pyval list \<Rightarrow> error + int list" where
  "qids_int [] = Inr []"
| "qids_int (PStr qid # rest) =
     (case py_int (replace_Q qid) of
        Inl e \<Rightarrow> Inl e
      | Inr n \<Rightarrow> (case qids_int rest of Inl e \<Rightarrow> Inl e | Inr ns \<Rightarrow> Inr (n # ns)))"
| "qids_int (_ # rest) = Inl AttributeError"

definition py_min :: "int list \<Rightarrow> error + int" where
  "py_min ns = (if ns = [] then Inl ValueError else Inr (min_list ns))"

definition get_min_qid :: "pyval \<Rightarrow> error + string" where
  "get_min_qid qids =
     (case py_iter qids of
        Inl e \<Rightarrow> Inl e
      | Inr items \<Rightarrow>
          (case qids_int items of
             Inl e \<Rightarrow> Inl e
           | Inr ns \<Rightarrow> (case py_min ns of Inl e \<Rightarrow> Inl e | Inr m \<Rightarrow> Inr (''Q'' @ py_str m))))"

text \<open>
  A failure is explicit when it is an exception that a \<^verbatim>\<open>raise\<close> statement of the source
  raises, and not the error of a built-in the source happens to call.
\<close>

fun explicit_failure :: "error + 'a \<Rightarrow> bool" where
  "explicit_failure (Inl (Exception msg)) = True"
| "explicit_failure _ = False"

section \<open>Identifier-to-label resolution: \<^verbatim>\<open>map_qids_to_labels\<close>\<close>

text \<open>
  \<^verbatim>\<open>
  def map_qids_to_labels(qids, wiki_client=WIKI_CLIENT):
    qids_labels_dict = dict()
    for qid in qids:
      try:
        qids_labels_dict[qid] = str(wiki_client.get(qid, load=True).label)
      except Exception:
        print(f'Problem with {qid}. Skipping...')
    return qids_labels_dict
  \<close>
  The Wikidata client is outside the repository: \<open>wiki_client qid\<close> is the outcome of
  \<^verbatim>\<open>str(wiki_client.get(qid, load=True).label)\<close>, a label or the exception it raised.
\<close>

fun map_qids_loop ::
  "(string \<Rightarrow> error + string) \<Rightarrow> string list \<Rightarrow> (string \<times> string) list \<Rightarrow> (string \<times> string) list"
where
  "map_qids_loop wiki_client [] qids_labels_dict = qids_labels_dict"
| "map_qids_loop wiki_client (qid # qids) qids_labels_dict =
     (case wiki_client qid of
        Inr label \<Rightarrow> map_qids_loop wiki_client qids (AList.update qid label qids_labels_dict)
      | Inl e \<Rightarrow> map_qids_loop wiki_client qids qids_labels_dict)"

definition map_qids_to_labels ::
  "(string \<Rightarrow> error + string) \<Rightarrow> string list \<Rightarrow> (string \<times> string) list"
where
  "map_qids_to_labels wiki_client qids = map_qids_loop wiki_client qids []"

section \<open>The speaker filter\<close>

text \<open>
  \<^verbatim>\<open>
  for instance in s_file:
    instance = json.loads(instance)
    if instance['speaker'] == 'None':
      continue
    d_file.write((json.dumps(instance)+'\n').encode('utf-8'))
  \<close>
  \<^verbatim>\<open>json.loads\<close> and \<^verbatim>\<open>json.dumps\<close> belong to Python's library and are parameters.
  The output file is the list of the lines written so far; it is returned together with
  the exception that stopped the loop, if any, since the lines written before an
  exception stay in the file.
\<close>

fun filter_loop ::
  "(string \<Rightarrow> error + pyval) \<Rightarrow> (pyval \<Rightarrow> string) \<Rightarrow> string list \<Rightarrow> string list
     \<Rightarrow> string list \<times> error option"
where
  "filter_loop json_loads json_dumps [] d_file = (d_file, None)"
| "filter_loop json_loads json_dumps (line # s_file) d_file =
     (case json_loads line of
        Inl e \<Rightarrow> (d_file, Some e)
      | Inr inst \<Rightarrow>
          (case py_getitem inst ''speaker'' of
             Inl e \<Rightarrow> (d_file, Some e)
           | Inr speaker \<Rightarrow>
               if speaker = PStr ''None''
               then filter_loop json_loads json_dumps s_file d_file
               else filter_loop json_loads json_dumps s_file
                      (d_file @ [json_dumps inst @ [CHR 0x0A]])))"

text \<open>
  The records a stream of lines holds, and the test the loop makes on a record, for
  stating what the loop writes.
\<close>

definition parsed :: "(string \<Rightarrow> error + pyval) \<Rightarrow> string \<Rightarrow> pyval" where
  "parsed json_loads line = (case json_loads line of Inr v \<Rightarrow> v | Inl e \<Rightarrow> PNone)"

definition speaker_resolved :: "pyval \<Rightarrow> bool" where
  "speaker_resolved inst = (py_getitem inst ''speaker'' \<noteq> Inr (PStr ''None''))"

section \<open>Record enrichment: \<^verbatim>\<open>add_wikidata_column_to_quote\<close>\<close>

text \<open>
  The attribute table is a pandas DataFrame: its column names, and its rows, each giving
  the cell of every column. A cell is \<^verbatim>\<open>None\<close>, a string (the \<^verbatim>\<open>id\<close> column) or a
  numpy array of strings.
\<close>

datatype cell = CNone | CStr string | CArray "string list"

record dataframe =
  columns :: "string list"
  rows :: "(string \<Rightarrow> cell) list"

text \<open>
  A record is a mutable dict that the caller and the function may share, so records
  live in a store: a list of dicts, a reference being an index into it.
  \<^verbatim>\<open>quote_data_original.copy()\<close> allocates a new dict with the same entries at the end.
\<close>

type_synonym heap = "pydict list"

definition collision_msg :: "string \<Rightarrow> string" where
  "collision_msg column_name =
     ''Provided column name '' @ [CHR 0x22] @ column_name @ [CHR 0x22] @ '' already exists!''"

definition missing_msg :: "string \<Rightarrow> string" where
  "missing_msg column_name =
     ''Provided column name '' @ [CHR 0x22] @ column_name @ [CHR 0x22] @ '' does not exist in the ''
       @ ''provided speaker atttributes DataFrame!''"

text \<open>
  \<^verbatim>\<open>
  for qid in labels:
    quote_data[column_name].append(labels[qid])
  \<close>
  Each step reads the list under \<^verbatim>\<open>column_name\<close> and extends it in the store.
\<close>

fun append_labels :: "heap \<Rightarrow> nat \<Rightarrow> string \<Rightarrow> string list \<Rightarrow> heap \<times> (error + nat)" where
  "append_labels h quote_data column_name [] = (h, Inr quote_data)"
| "append_labels h quote_data column_name (label # labels) =
     (case map_of (h ! quote_data) column_name of
        None \<Rightarrow> (h, Inl (KeyError column_name))
      | Some (PList xs) \<Rightarrow>
          append_labels
            (h[quote_data := AList.update column_name (PList (xs @ [PStr label])) (h ! quote_data)])
            quote_data column_name labels
      | Some _ \<Rightarrow> (h, Inl AttributeError))"

text \<open>
  The function, statement by statement. It returns the store after the call and either
  the exception raised or the reference of the record returned. The row of the speaker
  is the first row whose \<^verbatim>\<open>id\<close> equals the minimum QID; \<^verbatim>\<open>.values[0]\<close> of no row is an
  \<^verbatim>\<open>IndexError\<close>, and \<^verbatim>\<open>.tolist()\<close> of a string is an \<^verbatim>\<open>AttributeError\<close>. The labels
  are the values of the dict \<^verbatim>\<open>labels\<close> in the order of its keys: the labels resolved by
  the client, or the raw values enumerated.
\<close>

definition add_wikidata_column_to_quote ::
  "(string \<Rightarrow> error + string) \<Rightarrow> heap \<Rightarrow> nat \<Rightarrow> string \<Rightarrow> dataframe \<Rightarrow> bool \<Rightarrow> bool \<Rightarrow> bool
     \<Rightarrow> heap \<times> (error + nat)"
where
  "add_wikidata_column_to_quote wiki_client h quote_data_original column_name
       speakers_attributes inplace ignore_existing is_qid =
     (let h1 = (if inplace then h else h @ [h ! quote_data_original]);
          quote_data = (if inplace then quote_data_original else length h)
      in
        if \<not> ignore_existing \<and> dict_contains (h1 ! quote_data) column_name
        then (h1, Inl (Exception (collision_msg column_name)))
        else if column_name \<notin> set (columns speakers_attributes)
        then (h1, Inl (Exception (missing_msg column_name)))
        else
          (let h2 = h1[quote_data := AList.update column_name (PList []) (h1 ! quote_data)] in
             case map_of (h2 ! quote_data) ''qids'' of
               None \<Rightarrow> (h2, Inl (KeyError ''qids''))
             | Some qids \<Rightarrow>
                 (case get_min_qid qids of
                    Inl e \<Rightarrow> (h2, Inl e)
                  | Inr speaker_qid \<Rightarrow>
                      if ''id'' \<notin> set (columns speakers_attributes)
                      then (h2, Inl (KeyError ''id''))
                      else
                        (case filter (\<lambda>row. row ''id'' = CStr speaker_qid)
                                (rows speakers_attributes) of
                           [] \<Rightarrow> (h2, Inl IndexError)
                         | row # others \<Rightarrow>
                             (case row column_name of
                                CNone \<Rightarrow> (h2, Inr quote_data)
                              | CStr s \<Rightarrow> (h2, Inl AttributeError)
                              | CArray vals \<Rightarrow>
                                  append_labels h2 quote_data column_name
                                    (if is_qid
                                     then map snd (map_qids_to_labels wiki_client vals)
                                     else vals))))))"

section \<open>Example data\<close>

text \<open>
  The scenario of the specification: a quotation whose speaker has the candidate
  identifiers \<^verbatim>\<open>Q42\<close> and \<^verbatim>\<open>Q5\<close>; a table with a row for each of them, a \<^verbatim>\<open>gender\<close>
  column holding identifiers and a \<^verbatim>\<open>date_of_birth\<close> column without a value; a client
  that knows the label of \<^verbatim>\<open>Q6581097\<close> only.
\<close>

definition example_quote :: pydict where
  "example_quote = [(''speaker'', PStr ''Ann''), (''qids'', PList [PStr ''Q42'', PStr ''Q5''])]"

definition example_row :: "string \<Rightarrow> string list \<Rightarrow> string \<Rightarrow> cell" where
  "example_row qid gender c =
     (if c = ''id'' then CStr qid else if c = ''gender'' then CArray gender else CNone)"

definition example_table :: dataframe where
  "example_table =
     \<lparr>columns = [''id'', ''gender'', ''date_of_birth''],
      rows = [example_row ''Q42'' [''Q6581072''], example_row ''Q5'' [''Q6581097'']]\<rparr>"

definition example_client :: "string \<Rightarrow> error + string" where
  "example_client qid = (if qid = ''Q6581097'' then Inr ''male'' else Inl (KeyError qid))"

text \<open>A quotation whose only candidate identifier has no row in the table.\<close>

definition example_quote_Q7 :: pydict where
  "example_quote_Q7 = [(''speaker'', PStr ''Bob''), (''qids'', PList [PStr ''Q7''])]"

text \<open>
  A file of three lines, the first with an unresolved speaker, and the behaviour of
  \<^verbatim>\<open>json.loads\<close> and \<^verbatim>\<open>json.dumps\<close> on these lines and their records.
\<close>

definition example_unresolved :: pydict where
  "example_unresolved = [(''speaker'', PStr ''None''), (''qids'', PList [])]"

definition example_line_unresolved :: string where
  \<open>example_line_unresolved = ''{"speaker": "None", "qids": []}''\<close>

definition example_line_Ann :: string where
  \<open>example_line_Ann = ''{"speaker": "Ann", "qids": ["Q42", "Q5"]}''\<close>

definition example_line_Bob :: string where
  \<open>example_line_Bob = ''{"speaker": "Bob", "qids": ["Q7"]}''\<close>

definition example_loads :: "string \<Rightarrow> error + pyval" where
  "example_loads line =
     (if line = example_line_unresolved @ [CHR 0x0A] then Inr (PDict example_unresolved)
      else if line = example_line_Ann @ [CHR 0x0A] then Inr (PDict example_quote)
      else if line = example_line_Bob @ [CHR 0x0A] then Inr (PDict example_quote_Q7)
      else Inl JSONDecodeError)"

definition example_dumps :: "pyval \<Rightarrow> string" where
  "example_dumps v =
     (if v = PDict example_unresolved then example_line_unresolved
      else if v = PDict example_quote then example_line_Ann
      else if v = PDict example_quote_Q7 then example_line_Bob
      else [])"

section \<open>Helper facts\<close>

lemma append_labels_ok:
  "quote_data < length h \<Longrightarrow> map_of (h ! quote_data) column_name = Some (PList xs) \<Longrightarrow>
   append_labels h quote_data column_name labels =
     (h[quote_data := AList.update column_name (PList (xs @ map PStr labels)) (h ! quote_data)],
      Inr quote_data)"
proof (induction labels arbitrary: h xs)
  case Nil
  then show ?case by (simp add: AList.update_triv)
next
  case (Cons l ls)
  let ?h = "h[quote_data := AList.update column_name (PList (xs @ [PStr l])) (h ! quote_data)]"
  have len: "quote_data < length ?h" using Cons.prems by simp
  have look: "map_of (?h ! quote_data) column_name = Some (PList (xs @ [PStr l]))"
    using Cons.prems by (simp add: AList.update_conv')
  show ?case
    using Cons.prems Cons.IH [OF len look]
    by (simp add: AList.update_last)
qed

lemma add_after_guards:
  assumes a: "a < length h"
    and g1: "ie \<or> \<not> dict_contains (h ! a) col"
    and g2: "col \<in> set (columns df)"
    and qs: "map_of (AList.update col (PList []) (h ! a)) ''qids'' = Some qids"
    and mq: "get_min_qid qids = Inr q"
    and idc: "''id'' \<in> set (columns df)"
  shows "add_wikidata_column_to_quote wiki h a col df ip ie isq =
     (case filter (\<lambda>row. row ''id'' = CStr q) (rows df) of
        [] \<Rightarrow> ((if ip then h else h @ [h ! a])
                 [(if ip then a else length h) := AList.update col (PList []) (h ! a)], Inl IndexError)
      | row # others \<Rightarrow>
          (case row col of
             CNone \<Rightarrow> ((if ip then h else h @ [h ! a])
                 [(if ip then a else length h) := AList.update col (PList []) (h ! a)],
                 Inr (if ip then a else length h))
           | CStr s \<Rightarrow> ((if ip then h else h @ [h ! a])
                 [(if ip then a else length h) := AList.update col (PList []) (h ! a)], Inl AttributeError)
           | CArray vals \<Rightarrow> ((if ip then h else h @ [h ! a])
                 [(if ip then a else length h) := AList.update col
                     (PList (map PStr (if isq then map snd (map_qids_to_labels wiki vals) else vals)))
                     (h ! a)],
                 Inr (if ip then a else length h))))"
proof (cases ip)
  case True
  let ?h2 = "h[a := AList.update col (PList []) (h ! a)]"
  have l: "a < length ?h2" using a by simp
  have m: "map_of (?h2 ! a) col = Some (PList [])" using a by (simp add: AList.update_conv')
  show ?thesis
    using True a g1 g2 qs mq idc append_labels_ok [OF l m]
    by (simp add: add_wikidata_column_to_quote_def Let_def AList.update_last
         split: list.split cell.split)
next
  case False
  let ?h2 = "(h @ [h ! a])[length h := AList.update col (PList []) (h ! a)]"
  have l: "length h < length ?h2" by simp
  have m: "map_of (?h2 ! length h) col = Some (PList [])" by (simp add: AList.update_conv')
  show ?thesis
    using False a g1 g2 qs mq idc append_labels_ok [OF l m]
    by (simp add: add_wikidata_column_to_quote_def Let_def AList.update_last
         split: list.split cell.split)
qed

lemma add_shape:
  assumes a: "a < length h"
  shows "\<exists>ls. (fst (add_wikidata_column_to_quote wiki h a col df ip ie isq) = (if ip then h else h @ [h ! a])
            \<or> fst (add_wikidata_column_to_quote wiki h a col df ip ie isq) =
                (if ip then h else h @ [h ! a])
                  [(if ip then a else length h) := AList.update col (PList ls) (h ! a)])
         \<and> (\<forall>r. snd (add_wikidata_column_to_quote wiki h a col df ip ie isq) = Inr r \<longrightarrow>
               r = (if ip then a else length h) \<and>
               fst (add_wikidata_column_to_quote wiki h a col df ip ie isq) =
                (if ip then h else h @ [h ! a])
                  [(if ip then a else length h) := AList.update col (PList ls) (h ! a)])"
proof (cases "(ie \<or> \<not> dict_contains (h ! a) col) \<and> col \<in> set (columns df)")
  case False
  then show ?thesis using a
    by (auto simp add: add_wikidata_column_to_quote_def Let_def nth_append)
next
  case g: True
  show ?thesis
  proof (cases "map_of (AList.update col (PList []) (h ! a)) ''qids''")
    case None
    then show ?thesis using a g
      by (intro exI [of _ "[]"]) (auto simp add: add_wikidata_column_to_quote_def Let_def nth_append)
  next
    case (Some qids)
    show ?thesis
    proof (cases "get_min_qid qids")
      case (Inl e)
      then show ?thesis using a g Some
        by (intro exI [of _ "[]"]) (auto simp add: add_wikidata_column_to_quote_def Let_def nth_append)
    next
      case (Inr q)
      show ?thesis
      proof (cases "''id'' \<in> set (columns df)")
        case False
        then show ?thesis using a g Some Inr
          by (intro exI [of _ "[]"]) (auto simp add: add_wikidata_column_to_quote_def Let_def nth_append)
      next
        case True
        have g1: "ie \<or> \<not> dict_contains (h ! a) col" and g2: "col \<in> set (columns df)"
          using g by auto
        note eq = add_after_guards [OF a g1 g2 Some Inr True, of wiki ip isq]
        show ?thesis
        proof (cases "filter (\<lambda>row. row ''id'' = CStr q) (rows df)")
          case Nil
          then show ?thesis using eq by (intro exI [of _ "[]"]) simp
        next
          case (Cons row others)
          show ?thesis
          proof (cases "row col")
            case CNone
            then show ?thesis using eq Cons by (intro exI [of _ "[]"]) simp
          next
            case (CStr s)
            then show ?thesis using eq Cons by (intro exI [of _ "[]"]) simp
          next
            case (CArray vals)
            then show ?thesis using eq Cons
              by (intro exI [of _ "map PStr (if isq then map snd (map_qids_to_labels wiki vals) else vals)"]) simp
          qed
        qed
      qed
    qed
  qed
qed

lemma get_min_qid_empty: "get_min_qid (PList []) = Inl ValueError"
  by (simp add: get_min_qid_def py_min_def)

lemma add_Inr_elim:
  assumes a: "a < length h"
    and ok: "snd (add_wikidata_column_to_quote wiki h a col df ip ie isq) = Inr r"
  obtains qids q row others where
    "ie \<or> \<not> dict_contains (h ! a) col" "col \<in> set (columns df)" "''id'' \<in> set (columns df)"
    "col \<noteq> ''qids''" "map_of (h ! a) ''qids'' = Some qids" "get_min_qid qids = Inr q"
    "filter (\<lambda>row. row ''id'' = CStr q) (rows df) = row # others"
    "row col = CNone \<or> (\<exists>vals. row col = CArray vals)"
proof -
  have g: "(ie \<or> \<not> dict_contains (h ! a) col) \<and> col \<in> set (columns df)"
    using ok a by (auto simp add: add_wikidata_column_to_quote_def Let_def nth_append split: if_splits)
  then have g1: "ie \<or> \<not> dict_contains (h ! a) col" and g2: "col \<in> set (columns df)" by auto
  obtain qids where qs: "map_of (AList.update col (PList []) (h ! a)) ''qids'' = Some qids"
    using ok a g
    by (cases "map_of (AList.update col (PList []) (h ! a)) ''qids''")
       (auto simp add: add_wikidata_column_to_quote_def Let_def nth_append split: if_splits)
  obtain q where mq: "get_min_qid qids = Inr q"
    using ok a g qs
    by (cases "get_min_qid qids")
       (auto simp add: add_wikidata_column_to_quote_def Let_def nth_append split: if_splits)
  have idc: "''id'' \<in> set (columns df)"
    using ok a g qs mq
    by (auto simp add: add_wikidata_column_to_quote_def Let_def nth_append split: if_splits)
  have ne: "col \<noteq> ''qids''"
  proof
    assume "col = ''qids''"
    then have "qids = PList []" using qs by (simp add: AList.update_conv')
    then show False using mq by (simp add: get_min_qid_empty)
  qed
  then have qs': "map_of (h ! a) ''qids'' = Some qids"
    using qs by (simp add: AList.update_conv')
  note eq = add_after_guards [OF a g1 g2 qs mq idc, of wiki ip isq]
  obtain row others where f: "filter (\<lambda>row. row ''id'' = CStr q) (rows df) = row # others"
    using ok eq by (cases "filter (\<lambda>row. row ''id'' = CStr q) (rows df)") auto
  have c: "row col = CNone \<or> (\<exists>vals. row col = CArray vals)"
    using ok eq f by (cases "row col") auto
  show thesis using that [OF g1 g2 idc ne qs' mq f c] .
qed

lemma example_min_qid: "get_min_qid (PList [PStr ''Q42'', PStr ''Q5'']) = Inr ''Q5''"
  by code_simp

lemma example_min_qid_Q7: "get_min_qid (PList [PStr ''Q7'']) = Inr ''Q7''"
  by code_simp

lemma example_gender_copy:
  "add_wikidata_column_to_quote example_client [example_quote] 0 ''gender'' example_table
      False True True =
     ([example_quote, example_quote @ [(''gender'', PList [PStr ''male''])]], Inr 1)"
  by (simp add: add_wikidata_column_to_quote_def example_quote_def example_table_def
      example_row_def example_client_def example_min_qid dict_contains_def map_qids_to_labels_def)

lemma example_gender_inplace:
  "add_wikidata_column_to_quote example_client [example_quote] 0 ''gender'' example_table
      True True True =
     ([example_quote @ [(''gender'', PList [PStr ''male''])]], Inr 0)"
  by (simp add: add_wikidata_column_to_quote_def example_quote_def example_table_def
      example_row_def example_client_def example_min_qid dict_contains_def map_qids_to_labels_def)

lemma add_Inr_exact:
  assumes a: "a < length h"
    and ok: "add_wikidata_column_to_quote wiki h a col df ip ie isq = (h', Inr r)"
  shows "\<exists>ls. r = (if ip then a else length h) \<and>
    h' = (if ip then h else h @ [h ! a])[r := AList.update col (PList ls) (h ! a)] \<and>
    col \<noteq> ''qids'' \<and>
    (\<forall>g b ip'. b < length g \<longrightarrow> map_of (g ! b) ''qids'' = map_of (h ! a) ''qids'' \<longrightarrow>
        add_wikidata_column_to_quote wiki g b col df ip' True isq =
          ((if ip' then g else g @ [g ! b])
             [(if ip' then b else length g) := AList.update col (PList ls) (g ! b)],
           Inr (if ip' then b else length g)))"
proof -
  have ok': "snd (add_wikidata_column_to_quote wiki h a col df ip ie isq) = Inr r"
    using ok by simp
  from a ok' obtain qids q row others where
    g1: "ie \<or> \<not> dict_contains (h ! a) col" and g2: "col \<in> set (columns df)"
    and idc: "''id'' \<in> set (columns df)"
    and ne: "col \<noteq> ''qids''" and qs: "map_of (h ! a) ''qids'' = Some qids"
    and mq: "get_min_qid qids = Inr q"
    and f: "filter (\<lambda>row. row ''id'' = CStr q) (rows df) = row # others"
    and c: "row col = CNone \<or> (\<exists>vals. row col = CArray vals)"
    by (rule add_Inr_elim)
  define ls where "ls = (case row col of CArray vals \<Rightarrow>
      map PStr (if isq then map snd (map_qids_to_labels wiki vals) else vals) | _ \<Rightarrow> [])"
  have qs1: "map_of (AList.update col (PList []) (h ! a)) ''qids'' = Some qids"
    using ne qs by (simp add: AList.update_conv')
  have fst_eq: "fst (add_wikidata_column_to_quote wiki h a col df ip ie isq) = h'"
    and snd_eq: "snd (add_wikidata_column_to_quote wiki h a col df ip ie isq) = Inr r"
    using ok by simp_all
  have both: "r = (if ip then a else length h) \<and>
      h' = (if ip then h else h @ [h ! a])[r := AList.update col (PList ls) (h ! a)]"
  proof (cases "row col")
    case CNone
    then show ?thesis
      using add_after_guards [OF a g1 g2 qs1 mq idc, of wiki ip isq] ok f
      by (simp add: ls_def)
  next
    case (CStr s)
    then show ?thesis using c by simp
  next
    case (CArray vals)
    then show ?thesis
      using add_after_guards [OF a g1 g2 qs1 mq idc, of wiki ip isq] ok f
      by (simp add: ls_def)
  qed
  have 3: "add_wikidata_column_to_quote wiki g b col df ip' True isq =
          ((if ip' then g else g @ [g ! b])
             [(if ip' then b else length g) := AList.update col (PList ls) (g ! b)],
           Inr (if ip' then b else length g))"
    if b: "b < length g" and same: "map_of (g ! b) ''qids'' = map_of (h ! a) ''qids''"
    for g b ip'
  proof -
    have t: "True \<or> \<not> dict_contains (g ! b) col" by simp
    have qs2: "map_of (AList.update col (PList []) (g ! b)) ''qids'' = Some qids"
      using ne qs same by (simp add: AList.update_conv')
    show ?thesis
    proof (cases "row col")
      case CNone
      then show ?thesis
        using add_after_guards [OF b t g2 qs2 mq idc, of wiki ip' isq] f
        by (simp add: ls_def)
    next
      case (CStr s)
      then show ?thesis using c by simp
    next
      case (CArray vals)
      then show ?thesis
        using add_after_guards [OF b t g2 qs2 mq idc, of wiki ip' isq] f
        by (simp add: ls_def)
    qed
  qed
  show ?thesis
  proof (intro exI [of _ ls] conjI allI impI)
    show "r = (if ip then a else length h)" using both by simp
    show "h' = (if ip then h else h @ [h ! a])[r := AList.update col (PList ls) (h ! a)]"
      using both by simp
    show "col \<noteq> ''qids''" by (rule ne)
  next
    fix g b ip'
    assume "b < length g" and "map_of (g ! b) ''qids'' = map_of (h ! a) ''qids''"
    then show "add_wikidata_column_to_quote wiki g b col df ip' True isq =
          ((if ip' then g else g @ [g ! b])
             [(if ip' then b else length g) := AList.update col (PList ls) (g ! b)],
           Inr (if ip' then b else length g))"
      by (rule 3)
  qed
qed

lemma map_qids_loop_append:
  "map_qids_loop w (xs @ ys) d = map_qids_loop w ys (map_qids_loop w xs d)"
  by (induction xs arbitrary: d) (auto split: sum.splits)

lemma map_of_map_qids_loop:
  "map_of (map_qids_loop w qs d) k =
     (case w k of Inr l \<Rightarrow> if k \<in> set qs then Some l else map_of d k | Inl e \<Rightarrow> map_of d k)"
  by (induction qs arbitrary: d) (auto simp add: AList.update_conv' split: sum.splits)

lemma distinct_map_qids_loop:
  "distinct (map fst d) \<Longrightarrow> distinct (map fst (map_qids_loop w qs d))"
  by (induction qs arbitrary: d) (auto simp add: AList.distinct_update split: sum.splits)

lemma update_new_key: "k \<notin> fst ` set al \<Longrightarrow> AList.update k v al = al @ [(k, v)]"
  by (induction al) auto

lemma map_qids_to_labels_order:
  "map_qids_to_labels w qs =
     concat (map (\<lambda>q. case w q of Inr l \<Rightarrow> [(q, l)] | Inl e \<Rightarrow> []) (rev (remdups (rev qs))))"
proof (induction qs rule: rev_induct)
  case Nil
  show ?case by (simp add: map_qids_to_labels_def)
next
  case (snoc q qs)
  let ?d = "map_qids_to_labels w qs"
  have step: "map_qids_to_labels w (qs @ [q]) =
      (case w q of Inr l \<Rightarrow> AList.update q l ?d | Inl e \<Rightarrow> ?d)"
    by (simp add: map_qids_to_labels_def map_qids_loop_append split: sum.splits)
  have look: "map_of ?d q = (case w q of Inr l \<Rightarrow> if q \<in> set qs then Some l else None | Inl e \<Rightarrow> None)"
    by (simp add: map_qids_to_labels_def map_of_map_qids_loop split: sum.splits)
  show ?case
  proof (cases "w q")
    case (Inl e)
    then show ?thesis using step snoc.IH by simp
  next
    case (Inr l)
    show ?thesis
    proof (cases "q \<in> set qs")
      case True
      then have "map_of ?d q = Some l" using look Inr by simp
      then have "AList.update q l ?d = ?d" by (rule AList.update_triv)
      then show ?thesis using step Inr True snoc.IH by simp
    next
      case False
      then have "map_of ?d q = None" using look Inr by simp
      then have "q \<notin> fst ` set ?d" by (simp add: map_of_eq_None_iff)
      then have "AList.update q l ?d = ?d @ [(q, l)]" by (rule update_new_key)
      then show ?thesis using step Inr False snoc.IH by simp
    qed
  qed
qed

lemma map_snd_concat_resolved:
  "map snd (concat (map (\<lambda>q. case w q of Inr l \<Rightarrow> [(q, l)] | Inl e \<Rightarrow> []) xs)) =
   concat (map (\<lambda>q. case w q of Inr l \<Rightarrow> [l] | Inl e \<Rightarrow> []) xs)"
  by (induction xs) (auto split: sum.splits)

lemma is_space_le: "is_space c \<Longrightarrow> (of_char c :: nat) \<le> 32"
  by (auto simp add: is_space_def)

lemma is_digit_ge: "is_digit c \<Longrightarrow> 48 \<le> (of_char c :: nat) \<and> (of_char c :: nat) \<le> 57"
  by (simp add: is_digit_def)

lemma digit_char_props:
  assumes "d < 10"
  shows "is_digit (digit_char d)" and "digit_val (digit_char d) = d"
  using assms by (simp_all add: is_digit_def digit_val_def digit_char_def)

lemma str_nat_digits: "c \<in> set (str_nat n) \<Longrightarrow> is_digit c"
proof (induction n arbitrary: c rule: str_nat.induct)
  case (1 n)
  show ?case
  proof (cases "n < 10")
    case True
    then show ?thesis using "1.prems" by (simp add: str_nat.simps [of n] digit_char_props)
  next
    case False
    then show ?thesis using "1.prems" "1.IH"
      by (auto simp add: str_nat.simps [of n] digit_char_props)
  qed
qed

lemma str_nat_nonempty: "str_nat n \<noteq> []"
  by (simp add: str_nat.simps [of n])

lemma parse_digits_all_digits:
  "\<forall>c \<in> set ds. is_digit c \<Longrightarrow>
   parse_digits acc ds = Some (foldl (\<lambda>a c. a * 10 + digit_val c) acc ds)"
  by (induction acc ds rule: parse_digits.induct) simp_all

lemma parse_decimal_all_digits:
  "ds \<noteq> [] \<Longrightarrow> \<forall>c \<in> set ds. is_digit c \<Longrightarrow>
   parse_decimal ds = Some (foldl (\<lambda>a c. a * 10 + digit_val c) 0 ds)"
  by (cases ds) (simp_all add: parse_decimal_def parse_digits_all_digits)

lemma foldl_str_nat: "foldl (\<lambda>a c. a * 10 + digit_val c) 0 (str_nat n) = n"
proof (induction n rule: str_nat.induct)
  case (1 n)
  show ?case
  proof (cases "n < 10")
    case True
    then show ?thesis by (simp add: str_nat.simps [of n] digit_char_props)
  next
    case False
    then have "n mod 10 < 10" by simp
    then show ?thesis using False "1.IH"
      by (simp add: str_nat.simps [of n] digit_char_props)
  qed
qed

lemma parse_decimal_str_nat: "parse_decimal (str_nat n) = Some n"
  using str_nat_digits
  by (simp add: parse_decimal_all_digits str_nat_nonempty foldl_str_nat)

lemma py_strip_no_space: "\<forall>c \<in> set s. \<not> is_space c \<Longrightarrow> py_strip s = s"
proof -
  assume ns: "\<forall>c \<in> set s. \<not> is_space c"
  have d: "dropWhile is_space t = t" if "\<forall>c \<in> set t. \<not> is_space c" for t
    using that by (cases t) simp_all
  have "dropWhile is_space s = s" using ns by (rule d)
  moreover have "dropWhile is_space (rev s) = rev s" using ns by (intro d) simp
  ultimately show ?thesis by (simp add: py_strip_def)
qed

lemma digit_not_space: "is_digit c \<Longrightarrow> \<not> is_space c"
  using is_space_le [of c] is_digit_ge [of c] by auto

lemma digit_not_sign: "is_digit c \<Longrightarrow> c \<noteq> CHR ''-'' \<and> c \<noteq> CHR ''+'' \<and> c \<noteq> CHR ''Q''"
  using is_digit_ge [of c] by auto

lemma py_str_minus_or_digit: "c \<in> set (py_str i) \<Longrightarrow> c = CHR ''-'' \<or> is_digit c"
  by (cases "i < 0") (auto simp add: py_str_def dest: str_nat_digits)

lemma minus_not_space: "\<not> is_space (CHR ''-'')"
  by (simp add: is_space_def)

lemma py_str_chars:
  assumes "c \<in> set (py_str i)"
  shows "\<not> is_space c \<and> c \<noteq> CHR ''Q''"
proof -
  from assms have "c = CHR ''-'' \<or> is_digit c" by (rule py_str_minus_or_digit)
  then show ?thesis
  proof
    assume "c = CHR ''-''"
    then show ?thesis using minus_not_space by simp
  next
    assume "is_digit c"
    then show ?thesis using digit_not_space digit_not_sign by blast
  qed
qed

lemma py_int_py_str: "py_int (py_str i) = Inr i"
proof -
  have strip: "py_strip (py_str i) = py_str i"
    using py_str_chars by (intro py_strip_no_space) blast
  show ?thesis
  proof (cases "i < 0")
    case True
    then show ?thesis
      using strip by (simp add: py_int_def py_str_def parse_decimal_str_nat)
  next
    case False
    obtain c cs where s: "str_nat (nat i) = c # cs"
      using str_nat_nonempty [of "nat i"] by (cases "str_nat (nat i)") auto
    then have "is_digit c" using str_nat_digits [of c "nat i"] by simp
    then have ns: "c \<noteq> CHR ''-''" "c \<noteq> CHR ''+''" using digit_not_sign by auto
    have "parse_decimal (c # cs) = Some (nat i)"
      using parse_decimal_str_nat [of "nat i"] s by simp
    then show ?thesis
      using False strip s ns by (simp add: py_int_def py_str_def)
  qed
qed

lemma py_str_inj: "py_str i = py_str j \<Longrightarrow> i = j"
proof -
  assume "py_str i = py_str j"
  then have "py_int (py_str i) = py_int (py_str j)" by simp
  then show "i = j" by (simp add: py_int_py_str)
qed

lemma replace_Q_qid: "replace_Q (''Q'' @ py_str i) = py_str i"
  using py_str_chars [of _ i] by (simp add: replace_Q_def filter_id_conv)

lemma qids_int_canonical:
  "qids_int (map (\<lambda>n. PStr (''Q'' @ py_str n)) ns) = Inr ns"
proof (induction ns)
  case Nil
  show ?case by simp
next
  case (Cons n ns)
  have "py_int (replace_Q (CHR ''Q'' # py_str n)) = Inr n"
    using replace_Q_qid [of n] py_int_py_str [of n] by simp
  then show ?case using Cons.IH by simp
qed

lemma get_min_qid_canonical:
  "ns \<noteq> [] \<Longrightarrow>
   get_min_qid (PList (map (\<lambda>n. PStr (''Q'' @ py_str n)) ns)) = Inr (''Q'' @ py_str (Min (set ns)))"
  using qids_int_canonical [of ns]
  by (simp add: get_min_qid_def py_min_def min_list_Min)

lemma example_py_str: "py_str 42 = ''42''" "py_str 5 = ''5''"
  by code_simp+

lemma filter_loop_wf:
  assumes "\<forall>l \<in> set lines. \<exists>r. json_loads l = Inr (PDict r) \<and> dict_contains r ''speaker''"
  shows "filter_loop json_loads json_dumps lines d_file =
           (d_file @ map (\<lambda>v. json_dumps v @ [CHR 0x0A])
                      (filter speaker_resolved (map (parsed json_loads) lines)), None)"
  using assms
proof (induction lines arbitrary: d_file)
  case Nil
  show ?case by simp
next
  case (Cons l ls)
  from Cons.prems obtain r where r: "json_loads l = Inr (PDict r)"
    and sp: "dict_contains r ''speaker''" by auto
  from sp obtain v where v: "map_of r ''speaker'' = Some v"
    by (auto simp add: dict_contains_def)
  have rest: "\<forall>l \<in> set ls. \<exists>r. json_loads l = Inr (PDict r) \<and> dict_contains r ''speaker''"
    using Cons.prems by simp
  show ?case
    using r v Cons.IH [OF rest]
    by (simp add: parsed_def speaker_resolved_def)
qed

lemma example_loads_lines:
  "example_loads (example_line_unresolved @ [CHR 0x0A]) = Inr (PDict example_unresolved)"
  "example_loads (example_line_Ann @ [CHR 0x0A]) = Inr (PDict example_quote)"
  "example_loads (example_line_Bob @ [CHR 0x0A]) = Inr (PDict example_quote_Q7)"
  by (simp_all add: example_loads_def example_line_unresolved_def example_line_Ann_def
      example_line_Bob_def)

lemma example_dumps_records:
  "example_dumps (PDict example_unresolved) = example_line_unresolved"
  "example_dumps (PDict example_quote) = example_line_Ann"
  "example_dumps (PDict example_quote_Q7) = example_line_Bob"
  by (simp_all add: example_dumps_def example_unresolved_def example_quote_def
      example_quote_Q7_def)

lemma example_speakers:
  "dict_contains example_unresolved ''speaker''"
  "dict_contains example_quote ''speaker''"
  "dict_contains example_quote_Q7 ''speaker''"
  "\<not> speaker_resolved (PDict example_unresolved)"
  "speaker_resolved (PDict example_quote)"
  "speaker_resolved (PDict example_quote_Q7)"
  by (simp_all add: dict_contains_def speaker_resolved_def example_unresolved_def
      example_quote_def example_quote_Q7_def)

section \<open>The identifier with the smallest number\<close>

text \<open>
  C2: for every non-empty collection of identifiers of the form \<^verbatim>\<open>Q\<close> followed by an
  integer as Python prints it, \<^verbatim>\<open>get_min_qid\<close> returns an identifier; it is an element of
  the collection, and its integer is the least of the integers of the collection.
\<close>

theorem get_min_qid_minimum:
  assumes ne: "S \<noteq> []"
    and form: "\<forall>q \<in> set S. \<exists>n. q = ''Q'' @ py_str n"
  shows "\<exists>m. get_min_qid (PList (map PStr S)) = Inr (''Q'' @ py_str m)
            \<and> ''Q'' @ py_str m \<in> set S
            \<and> (\<forall>n. ''Q'' @ py_str n \<in> set S \<longrightarrow> m \<le> n)"
proof -
  from form obtain ns where S: "S = map (\<lambda>n. ''Q'' @ py_str n) ns"
    using ex_map_conv [of S "\<lambda>n. ''Q'' @ py_str n"] by blast
  have nne: "ns \<noteq> []" using ne S by simp
  let ?m = "Min (set ns)"
  have run: "get_min_qid (PList (map PStr S)) = Inr (''Q'' @ py_str ?m)"
    using get_min_qid_canonical [OF nne] S by (simp add: comp_def)
  have mem: "?m \<in> set ns" using nne by (intro Min_in) simp_all
  then have inS: "''Q'' @ py_str ?m \<in> set S" using S by auto
  have least: "?m \<le> n" if "''Q'' @ py_str n \<in> set S" for n
  proof -
    from that S obtain k where k: "k \<in> set ns" and "''Q'' @ py_str n = ''Q'' @ py_str k"
      by auto
    then have "n = k" using py_str_inj by simp
    then show ?thesis using k by simp
  qed
  show ?thesis using run inS least by blast
qed

theorem get_min_qid_minimum_witness:
  "get_min_qid (PList (map PStr [''Q42'', ''Q5''])) = Inr ''Q5''
   \<and> (\<exists>m. get_min_qid (PList (map PStr [''Q42'', ''Q5''])) = Inr (''Q'' @ py_str m)
            \<and> ''Q'' @ py_str m \<in> set [''Q42'', ''Q5'']
            \<and> (\<forall>n. ''Q'' @ py_str n \<in> set [''Q42'', ''Q5''] \<longrightarrow> m \<le> n))"
proof -
  have ne: "[''Q42'', ''Q5''] \<noteq> []" by simp
  have "''Q42'' = ''Q'' @ py_str 42" and "''Q5'' = ''Q'' @ py_str 5"
    by (simp_all add: example_py_str)
  then have form: "\<forall>q \<in> set [''Q42'', ''Q5'']. \<exists>n. q = ''Q'' @ py_str n"
    by (metis insert_iff list.set(1) list.set(2) empty_iff)
  show ?thesis
    using get_min_qid_minimum [OF ne form] example_min_qid by simp
qed

section \<open>Disambiguation of the empty candidate set\<close>

text \<open>
  C5, as stated: applied to the empty candidate set, \<^verbatim>\<open>get_min_qid\<close> fails explicitly, with
  an error of its own. It does not: the failure is not an exception raised by the source.
\<close>

theorem get_min_qid_empty_not_explicit:
  "\<not> explicit_failure (get_min_qid (PList []))"
  by (simp add: get_min_qid_def py_min_def)

text \<open>
  C5, amended: applied to the empty candidate set, \<^verbatim>\<open>get_min_qid\<close> returns no identifier;
  it stops with the \<^verbatim>\<open>ValueError\<close> that the built-in \<^verbatim>\<open>min\<close> raises on an empty
  sequence. The source has no check of its own for this case.
\<close>

theorem get_min_qid_empty_ValueError:
  "get_min_qid (PList []) = Inl ValueError"
  by (simp add: get_min_qid_def py_min_def)

section \<open>Naming collisions\<close>

text \<open>
  C6: called with \<^verbatim>\<open>ignore_existing=False\<close> on a record that already has the target
  field, the function raises the naming-collision exception, whatever the table, the
  client and the other flags are. Nothing has been written by then: with
  \<^verbatim>\<open>inplace=True\<close> the store is the one before the call, and otherwise it only has the
  copy at its end, equal to the record.
\<close>

theorem collision_raises:
  assumes "a < length h" and "dict_contains (h ! a) col"
  shows "add_wikidata_column_to_quote wiki h a col df ip False isq =
           (if ip then h else h @ [h ! a], Inl (Exception (collision_msg col)))"
  using assms by (simp add: add_wikidata_column_to_quote_def Let_def nth_append)

theorem collision_raises_witness:
  "add_wikidata_column_to_quote example_client [example_quote] 0 ''speaker'' example_table True False True =
     ([example_quote], Inl (Exception (collision_msg ''speaker'')))
   \<and> add_wikidata_column_to_quote example_client [example_quote] 0 ''qids'' example_table False False False =
     ([example_quote, example_quote], Inl (Exception (collision_msg ''qids'')))"
proof -
  have a: "0 < length [example_quote]" by simp
  have c1: "dict_contains ([example_quote] ! 0) ''speaker''"
    by (simp add: dict_contains_def example_quote_def)
  have c2: "dict_contains ([example_quote] ! 0) ''qids''"
    by (simp add: dict_contains_def example_quote_def)
  show ?thesis
    using collision_raises [OF a c1, of example_client example_table True True]
          collision_raises [OF a c2, of example_client example_table False False]
    by simp
qed

section \<open>A cell without a value\<close>

text \<open>
  C1, as stated: when the cell of the speaker's row is \<^verbatim>\<open>None\<close>, the new field is left
  unset. It is not: in the scenario of the specification the record had no
  \<^verbatim>\<open>date_of_birth\<close> and the record returned has it, with the empty list as its value.
\<close>

theorem None_cell_field_is_set:
  "snd (add_wikidata_column_to_quote example_client [example_quote] 0 ''date_of_birth''
          example_table True True False) = Inr 0
   \<and> map_of (fst (add_wikidata_column_to_quote example_client [example_quote] 0 ''date_of_birth''
          example_table True True False) ! 0) ''date_of_birth'' = Some (PList [])
   \<and> map_of ([example_quote] ! 0) ''date_of_birth'' = None"
  by (simp add: add_wikidata_column_to_quote_def example_quote_def example_table_def example_row_def
      example_min_qid dict_contains_def)

text \<open>
  C1, amended: when the guards pass and the cell of the first row of the record's minimum
  QID is \<^verbatim>\<open>None\<close> in the target column, the function raises nothing and returns the
  record with the target field set to the empty list (replacing any value it had), every
  other field as it was.
\<close>

theorem None_cell_gives_empty_list:
  assumes "a < length h"
    and "ie \<or> \<not> dict_contains (h ! a) col"
    and "col \<in> set (columns df)"
    and "''id'' \<in> set (columns df)"
    and "col \<noteq> ''qids''"
    and "map_of (h ! a) ''qids'' = Some qids"
    and "get_min_qid qids = Inr q"
    and "filter (\<lambda>row. row ''id'' = CStr q) (rows df) = row # others"
    and "row col = CNone"
  shows "add_wikidata_column_to_quote wiki h a col df ip ie isq =
           ((if ip then h else h @ [h ! a])
              [(if ip then a else length h) := AList.update col (PList []) (h ! a)],
            Inr (if ip then a else length h))"
proof -
  have qs: "map_of (AList.update col (PList []) (h ! a)) ''qids'' = Some qids"
    using assms(5,6) by (simp add: AList.update_conv')
  show ?thesis
    using add_after_guards [OF assms(1,2,3) qs assms(7,4), of wiki ip isq] assms(8,9)
    by simp
qed

theorem None_cell_gives_empty_list_witness:
  "add_wikidata_column_to_quote example_client [example_quote] 0 ''date_of_birth'' example_table
      False True False =
     ([example_quote, example_quote @ [(''date_of_birth'', PList [])]], Inr 1)"
proof -
  have 1: "0 < length [example_quote]" by simp
  have 2: "True \<or> \<not> dict_contains ([example_quote] ! 0) ''date_of_birth''" by simp
  have 3: "''date_of_birth'' \<in> set (columns example_table)" by (simp add: example_table_def)
  have 4: "''id'' \<in> set (columns example_table)" by (simp add: example_table_def)
  have 5: "''date_of_birth'' \<noteq> ''qids''" by simp
  have 6: "map_of ([example_quote] ! 0) ''qids'' = Some (PList [PStr ''Q42'', PStr ''Q5''])"
    by (simp add: example_quote_def)
  have 8: "filter (\<lambda>row. row ''id'' = CStr ''Q5'') (rows example_table) =
             example_row ''Q5'' [''Q6581097''] # []"
    by (simp add: example_table_def example_row_def)
  have 9: "example_row ''Q5'' [''Q6581097''] ''date_of_birth'' = CNone"
    by (simp add: example_row_def)
  show ?thesis
    using None_cell_gives_empty_list [OF 1 2 3 4 5 6 example_min_qid 8 9, of example_client False False]
    by (simp add: example_quote_def)
qed

section \<open>The row of the speaker\<close>

text \<open>
  C10: the function returns a record only when the table has a row whose \<^verbatim>\<open>id\<close> is the
  minimum QID of the record; and when the guards pass, the minimum QID is found and no
  row has it, \<^verbatim>\<open>.values[0]\<close> fails with \<^verbatim>\<open>IndexError\<close>, which nothing catches.
\<close>

theorem row_required:
  assumes a: "a < length h"
  shows "(snd (add_wikidata_column_to_quote wiki h a col df ip ie isq) = Inr r \<longrightarrow>
            (\<exists>qids q. map_of (h ! a) ''qids'' = Some qids \<and> get_min_qid qids = Inr q \<and>
                     (\<exists>row \<in> set (rows df). row ''id'' = CStr q)))
       \<and> ((ie \<or> \<not> dict_contains (h ! a) col) \<and> col \<in> set (columns df) \<and>
          ''id'' \<in> set (columns df) \<and> col \<noteq> ''qids'' \<and>
          map_of (h ! a) ''qids'' = Some qids' \<and> get_min_qid qids' = Inr q' \<and>
          (\<forall>row \<in> set (rows df). row ''id'' \<noteq> CStr q') \<longrightarrow>
            snd (add_wikidata_column_to_quote wiki h a col df ip ie isq) = Inl IndexError)"
proof (intro conjI impI)
  assume ok: "snd (add_wikidata_column_to_quote wiki h a col df ip ie isq) = Inr r"
  from a ok obtain qids q row others where
    qs: "map_of (h ! a) ''qids'' = Some qids" and mq: "get_min_qid qids = Inr q"
    and f: "filter (\<lambda>row. row ''id'' = CStr q) (rows df) = row # others"
    by (rule add_Inr_elim)
  have "row \<in> set (filter (\<lambda>row. row ''id'' = CStr q) (rows df))" using f by simp
  then have "row \<in> set (rows df) \<and> row ''id'' = CStr q" by simp
  with qs mq
  show "\<exists>qids q. map_of (h ! a) ''qids'' = Some qids \<and> get_min_qid qids = Inr q \<and>
                     (\<exists>row \<in> set (rows df). row ''id'' = CStr q)"
    by blast
next
  assume h: "(ie \<or> \<not> dict_contains (h ! a) col) \<and> col \<in> set (columns df) \<and>
          ''id'' \<in> set (columns df) \<and> col \<noteq> ''qids'' \<and>
          map_of (h ! a) ''qids'' = Some qids' \<and> get_min_qid qids' = Inr q' \<and>
          (\<forall>row \<in> set (rows df). row ''id'' \<noteq> CStr q')"
  then have g1: "ie \<or> \<not> dict_contains (h ! a) col" and g2: "col \<in> set (columns df)"
    and idc: "''id'' \<in> set (columns df)" and mq: "get_min_qid qids' = Inr q'"
    and qs: "map_of (AList.update col (PList []) (h ! a)) ''qids'' = Some qids'"
    by (auto simp add: AList.update_conv')
  have f: "filter (\<lambda>row. row ''id'' = CStr q') (rows df) = []"
    using h by (simp add: filter_empty_conv)
  show "snd (add_wikidata_column_to_quote wiki h a col df ip ie isq) = Inl IndexError"
    using add_after_guards [OF a g1 g2 qs mq idc, of wiki ip isq] f by simp
qed

theorem row_required_witness:
  "snd (add_wikidata_column_to_quote example_client [example_quote_Q7] 0 ''gender'' example_table
          True True True) = Inl IndexError
   \<and> fst (add_wikidata_column_to_quote example_client [example_quote_Q7] 0 ''gender'' example_table
          True True True) = [example_quote_Q7 @ [(''gender'', PList [])]]"
proof -
  have a: "0 < length [example_quote_Q7]" by simp
  have h: "(True \<or> \<not> dict_contains ([example_quote_Q7] ! 0) ''gender'') \<and>
      ''gender'' \<in> set (columns example_table) \<and> ''id'' \<in> set (columns example_table) \<and>
      ''gender'' \<noteq> ''qids'' \<and> map_of ([example_quote_Q7] ! 0) ''qids'' = Some (PList [PStr ''Q7'']) \<and>
      get_min_qid (PList [PStr ''Q7'']) = Inr ''Q7'' \<and>
      (\<forall>row \<in> set (rows example_table). row ''id'' \<noteq> CStr ''Q7'')"
    by (simp add: example_table_def example_row_def example_quote_Q7_def example_min_qid_Q7)
  have e: "snd (add_wikidata_column_to_quote example_client [example_quote_Q7] 0 ''gender'' example_table
          True True True) = Inl IndexError"
    using row_required [OF a, of example_client "''gender''" example_table True True True 0
       "PList [PStr ''Q7'']" "''Q7''"] h by blast
  have s: "fst (add_wikidata_column_to_quote example_client [example_quote_Q7] 0 ''gender'' example_table
          True True True) = [example_quote_Q7 @ [(''gender'', PList [])]]"
    by (simp add: add_wikidata_column_to_quote_def example_table_def example_row_def
         example_quote_Q7_def example_min_qid_Q7 dict_contains_def)
  show ?thesis using e s by simp
qed

section \<open>In place or on a copy\<close>

text \<open>
  C9: with \<^verbatim>\<open>inplace=False\<close> every record of the store, the input among them, is after
  the call what it was before, whether the call returns or raises; the record returned
  is a new one, equal to the input but for the target field. With \<^verbatim>\<open>inplace=True\<close> the
  record returned is the input itself, which now holds the target field in the store.
\<close>

theorem inplace_or_copy:
  assumes a: "a < length h"
  shows "take (length h) (fst (add_wikidata_column_to_quote wiki h a col df False ie isq)) = h
       \<and> (snd (add_wikidata_column_to_quote wiki h a col df False ie isq) = Inr r \<longrightarrow>
            r = length h \<and>
            (\<exists>ls. fst (add_wikidata_column_to_quote wiki h a col df False ie isq) ! r =
                    AList.update col (PList ls) (h ! a)))
       \<and> (snd (add_wikidata_column_to_quote wiki h a col df True ie isq) = Inr r' \<longrightarrow>
            r' = a \<and>
            (\<exists>ls. fst (add_wikidata_column_to_quote wiki h a col df True ie isq) =
                    h[a := AList.update col (PList ls) (h ! a)]))"
proof (intro conjI impI)
  from add_shape [OF a, of wiki col df False ie isq]
  show "take (length h) (fst (add_wikidata_column_to_quote wiki h a col df False ie isq)) = h"
    by auto
next
  assume ok: "snd (add_wikidata_column_to_quote wiki h a col df False ie isq) = Inr r"
  from add_shape [OF a, of wiki col df False ie isq] ok
  obtain ls where r: "r = length h"
    and f: "fst (add_wikidata_column_to_quote wiki h a col df False ie isq) =
              (h @ [h ! a])[length h := AList.update col (PList ls) (h ! a)]"
    by auto
  show "r = length h" by (rule r)
  have "fst (add_wikidata_column_to_quote wiki h a col df False ie isq) ! r =
          AList.update col (PList ls) (h ! a)"
    using r f by simp
  then show "\<exists>ls. fst (add_wikidata_column_to_quote wiki h a col df False ie isq) ! r =
                    AList.update col (PList ls) (h ! a)" ..
next
  assume ok: "snd (add_wikidata_column_to_quote wiki h a col df True ie isq) = Inr r'"
  from add_shape [OF a, of wiki col df True ie isq] ok
  obtain ls where r: "r' = a"
    and f: "fst (add_wikidata_column_to_quote wiki h a col df True ie isq) =
              h[a := AList.update col (PList ls) (h ! a)]"
    by auto
  show "r' = a" by (rule r)
  show "\<exists>ls. fst (add_wikidata_column_to_quote wiki h a col df True ie isq) =
                    h[a := AList.update col (PList ls) (h ! a)]"
    using f ..
qed

theorem inplace_or_copy_witness:
  "take 1 (fst (add_wikidata_column_to_quote example_client [example_quote] 0 ''gender''
                  example_table False True True)) = [example_quote]
   \<and> snd (add_wikidata_column_to_quote example_client [example_quote] 0 ''gender''
             example_table False True True) = Inr 1
   \<and> fst (add_wikidata_column_to_quote example_client [example_quote] 0 ''gender''
             example_table False True True) ! 1 = example_quote @ [(''gender'', PList [PStr ''male''])]
   \<and> add_wikidata_column_to_quote example_client [example_quote] 0 ''gender'' example_table
        True True True = ([example_quote @ [(''gender'', PList [PStr ''male''])]], Inr 0)"
proof -
  have a: "0 < length [example_quote]" by simp
  show ?thesis
    using inplace_or_copy [OF a, of example_client "''gender''" example_table True True 1 0]
    by (simp add: example_gender_copy example_gender_inplace)
qed

section \<open>Enriching twice\<close>

text \<open>
  C7: when a first enrichment of a record for a column has returned, enriching the
  record it returned again, for the same column with the same table, client and
  \<^verbatim>\<open>is_qid\<close> and with \<^verbatim>\<open>ignore_existing=True\<close>, returns a record equal to it: in
  place the store does not change, and a copy is equal to the record copied.
\<close>

theorem enrichment_idempotent:
  assumes a: "a < length h"
    and first: "add_wikidata_column_to_quote wiki h a col df ip ie isq = (h1, Inr r1)"
  shows "add_wikidata_column_to_quote wiki h1 r1 col df ip' True isq =
           (if ip' then h1 else h1 @ [h1 ! r1], Inr (if ip' then r1 else length h1))"
proof -
  from add_Inr_exact [OF a first] obtain ls where
    r1: "r1 = (if ip then a else length h)"
    and h1: "h1 = (if ip then h else h @ [h ! a])[r1 := AList.update col (PList ls) (h ! a)]"
    and ne: "col \<noteq> ''qids''"
    and again: "\<forall>g b ip'. b < length g \<longrightarrow> map_of (g ! b) ''qids'' = map_of (h ! a) ''qids'' \<longrightarrow>
        add_wikidata_column_to_quote wiki g b col df ip' True isq =
          ((if ip' then g else g @ [g ! b])
             [(if ip' then b else length g) := AList.update col (PList ls) (g ! b)],
           Inr (if ip' then b else length g))"
    by (elim exE conjE)
  have len: "r1 < length h1" using a r1 h1 by (cases ip) simp_all
  have rec: "h1 ! r1 = AList.update col (PList ls) (h ! a)"
    using a r1 h1 by (cases ip) simp_all
  have same: "map_of (h1 ! r1) ''qids'' = map_of (h ! a) ''qids''"
    using rec ne by (simp add: AList.update_conv')
  have upd: "AList.update col (PList ls) (h1 ! r1) = h1 ! r1"
    using rec by simp
  have run: "add_wikidata_column_to_quote wiki h1 r1 col df ip' True isq =
          ((if ip' then h1 else h1 @ [h1 ! r1])
             [(if ip' then r1 else length h1) := h1 ! r1],
           Inr (if ip' then r1 else length h1))"
    using again len same upd by simp
  show ?thesis
  proof (cases ip')
    case True
    then show ?thesis using run by simp
  next
    case False
    then show ?thesis using run by simp
  qed
qed

theorem enrichment_idempotent_witness:
  "add_wikidata_column_to_quote example_client
      [example_quote, example_quote @ [(''gender'', PList [PStr ''male''])]] 1 ''gender''
      example_table True True True =
     ([example_quote, example_quote @ [(''gender'', PList [PStr ''male''])]], Inr 1)"
proof -
  have a: "0 < length [example_quote]" by simp
  show ?thesis
    using enrichment_idempotent [OF a example_gender_copy, of True] by simp
qed

section \<open>Labels of the identifiers that resolve\<close>

text \<open>
  C8: for every collection of identifiers, the mapping \<^verbatim>\<open>map_qids_to_labels\<close> returns has
  an entry exactly for the identifiers of the collection whose lookup succeeds, with
  the label the lookup gave; an identifier whose lookup raises has no entry, and the
  call returns all the same (the model is a total function into dicts). Each key occurs
  once.
\<close>

theorem map_qids_to_labels_entries:
  "map_of (map_qids_to_labels wiki_client qids) qid =
     (case wiki_client qid of
        Inr label \<Rightarrow> if qid \<in> set qids then Some label else None
      | Inl e \<Rightarrow> None)
   \<and> fst ` set (map_qids_to_labels wiki_client qids) =
       {q. q \<in> set qids \<and> (\<exists>label. wiki_client q = Inr label)}
   \<and> distinct (map fst (map_qids_to_labels wiki_client qids))"
proof (intro conjI)
  show m: "map_of (map_qids_to_labels wiki_client qids) qid =
     (case wiki_client qid of
        Inr label \<Rightarrow> if qid \<in> set qids then Some label else None
      | Inl e \<Rightarrow> None)" for qid
    by (simp add: map_qids_to_labels_def map_of_map_qids_loop split: sum.splits)
  have "fst ` set (map_qids_to_labels wiki_client qids) =
          dom (map_of (map_qids_to_labels wiki_client qids))"
    by (simp add: dom_map_of_conv_image_fst)
  also have "\<dots> = {q. q \<in> set qids \<and> (\<exists>label. wiki_client q = Inr label)}"
  proof -
    have "q \<in> dom (map_of (map_qids_to_labels wiki_client qids)) \<longleftrightarrow>
            q \<in> set qids \<and> (\<exists>label. wiki_client q = Inr label)" for q
      by (cases "wiki_client q") (simp_all add: dom_def m)
    then show ?thesis by blast
  qed
  finally show "fst ` set (map_qids_to_labels wiki_client qids) =
       {q. q \<in> set qids \<and> (\<exists>label. wiki_client q = Inr label)}" .
  show "distinct (map fst (map_qids_to_labels wiki_client qids))"
    by (simp add: map_qids_to_labels_def distinct_map_qids_loop)
qed

theorem map_qids_to_labels_entries_witness:
  "map_qids_to_labels example_client [''Q6581097'', ''Q6581072'', ''Q6581097''] = [(''Q6581097'', ''male'')]
   \<and> map_of (map_qids_to_labels example_client [''Q6581097'', ''Q6581072'', ''Q6581097'']) ''Q6581097''
       = Some ''male''
   \<and> map_of (map_qids_to_labels example_client [''Q6581097'', ''Q6581072'', ''Q6581097'']) ''Q6581072''
       = None"
proof -
  have e: "map_qids_to_labels example_client [''Q6581097'', ''Q6581072'', ''Q6581097''] =
            [(''Q6581097'', ''male'')]"
    by (simp add: map_qids_to_labels_def example_client_def)
  show ?thesis
    using map_qids_to_labels_entries [of example_client "[''Q6581097'', ''Q6581072'', ''Q6581097'']" "''Q6581097''"]
      map_qids_to_labels_entries [of example_client "[''Q6581097'', ''Q6581072'', ''Q6581097'']" "''Q6581072''"]
    by (simp add: e example_client_def)
qed

section \<open>A column of identifiers\<close>

text \<open>
  C3: with \<^verbatim>\<open>is_qid=True\<close>, when the guards pass and the cell of the first row of the
  record's minimum QID is an array of identifiers, the function returns the record with
  the target field set to the labels of the identifiers that resolve, in the order of
  their first occurrence in the cell. In the scenario of the specification
  (\<^verbatim>\<open>qids\<close> \<^verbatim>\<open>Q42\<close> and \<^verbatim>\<open>Q5\<close>, row \<^verbatim>\<open>Q5\<close> with gender \<^verbatim>\<open>Q6581097\<close>, labelled
  \<^verbatim>\<open>male\<close>) the field \<^verbatim>\<open>gender\<close> becomes \<^verbatim>\<open>["male"]\<close>.
\<close>

theorem qid_column_gets_labels:
  assumes "a < length h"
    and "ie \<or> \<not> dict_contains (h ! a) col"
    and "col \<in> set (columns df)"
    and "''id'' \<in> set (columns df)"
    and "col \<noteq> ''qids''"
    and "map_of (h ! a) ''qids'' = Some qids"
    and "get_min_qid qids = Inr q"
    and "filter (\<lambda>row. row ''id'' = CStr q) (rows df) = row # others"
    and "row col = CArray vals"
  shows "add_wikidata_column_to_quote wiki h a col df ip ie True =
           ((if ip then h else h @ [h ! a])
              [(if ip then a else length h) :=
                 AList.update col
                   (PList (map PStr (concat (map (\<lambda>v. case wiki v of Inr l \<Rightarrow> [l] | Inl e \<Rightarrow> [])
                                                 (rev (remdups (rev vals)))))))
                   (h ! a)],
            Inr (if ip then a else length h))"
proof -
  have qs: "map_of (AList.update col (PList []) (h ! a)) ''qids'' = Some qids"
    using assms(5,6) by (simp add: AList.update_conv')
  have labels: "map snd (map_qids_to_labels wiki vals) =
      concat (map (\<lambda>v. case wiki v of Inr l \<Rightarrow> [l] | Inl e \<Rightarrow> []) (rev (remdups (rev vals))))"
    by (simp only: map_qids_to_labels_order map_snd_concat_resolved)
  show ?thesis
    using add_after_guards [OF assms(1,2,3) qs assms(7,4), of wiki ip True] assms(8,9)
    by (simp add: labels)
qed

theorem qid_column_gets_labels_witness:
  "add_wikidata_column_to_quote example_client [example_quote] 0 ''gender'' example_table
      True True True =
     ([[(''speaker'', PStr ''Ann''), (''qids'', PList [PStr ''Q42'', PStr ''Q5'']),
        (''gender'', PList [PStr ''male''])]], Inr 0)"
proof -
  have 1: "0 < length [example_quote]" by simp
  have 2: "True \<or> \<not> dict_contains ([example_quote] ! 0) ''gender''" by simp
  have 3: "''gender'' \<in> set (columns example_table)" by (simp add: example_table_def)
  have 4: "''id'' \<in> set (columns example_table)" by (simp add: example_table_def)
  have 5: "''gender'' \<noteq> ''qids''" by simp
  have 6: "map_of ([example_quote] ! 0) ''qids'' = Some (PList [PStr ''Q42'', PStr ''Q5''])"
    by (simp add: example_quote_def)
  have 8: "filter (\<lambda>row. row ''id'' = CStr ''Q5'') (rows example_table) =
             example_row ''Q5'' [''Q6581097''] # []"
    by (simp add: example_table_def example_row_def)
  have 9: "example_row ''Q5'' [''Q6581097''] ''gender'' = CArray [''Q6581097'']"
    by (simp add: example_row_def)
  show ?thesis
    using qid_column_gets_labels [OF 1 2 3 4 5 6 example_min_qid 8 9, of example_client True]
    by (simp add: example_quote_def example_client_def)
qed

section \<open>What the filter writes\<close>

text \<open>
  C4: when every line of the input parses to a JSON object with a \<^verbatim>\<open>speaker\<close> field,
  the loop raises nothing and writes, in input order, one line for each record whose
  speaker is not \<^verbatim>\<open>'None'\<close> and nothing else; the line is the serialisation of the whole
  record as parsed. So, \<^verbatim>\<open>json.loads\<close> reading back what \<^verbatim>\<open>json.dumps\<close> wrote, the
  output file parses to exactly the surviving records.
\<close>

theorem filter_keeps_resolved_speakers:
  assumes wf: "\<forall>l \<in> set lines. \<exists>r. json_loads l = Inr (PDict r) \<and> dict_contains r ''speaker''"
    and rt: "\<forall>l \<in> set lines.
               json_loads (json_dumps (parsed json_loads l) @ [CHR 0x0A]) = Inr (parsed json_loads l)"
  shows "filter_loop json_loads json_dumps lines [] =
           (map (\<lambda>v. json_dumps v @ [CHR 0x0A])
                (filter speaker_resolved (map (parsed json_loads) lines)), None)
       \<and> map json_loads (fst (filter_loop json_loads json_dumps lines [])) =
           map Inr (filter speaker_resolved (map (parsed json_loads) lines))"
proof -
  have run: "filter_loop json_loads json_dumps lines [] =
           (map (\<lambda>v. json_dumps v @ [CHR 0x0A])
                (filter speaker_resolved (map (parsed json_loads) lines)), None)"
    using filter_loop_wf [OF wf, of json_dumps "[]"] by simp
  have reread: "json_loads (json_dumps v @ [CHR 0x0A]) = Inr v"
    if "v \<in> set (filter speaker_resolved (map (parsed json_loads) lines))" for v
    using that rt by auto
  have "map json_loads (map (\<lambda>v. json_dumps v @ [CHR 0x0A])
                (filter speaker_resolved (map (parsed json_loads) lines))) =
        map Inr (filter speaker_resolved (map (parsed json_loads) lines))"
    using reread by (simp add: map_eq_conv)
  then show ?thesis using run by simp
qed

theorem filter_keeps_resolved_speakers_witness:
  "filter_loop example_loads example_dumps
      [example_line_unresolved @ [CHR 0x0A], example_line_Ann @ [CHR 0x0A],
       example_line_Bob @ [CHR 0x0A]] [] =
     ([example_line_Ann @ [CHR 0x0A], example_line_Bob @ [CHR 0x0A]], None)
   \<and> map example_loads (fst (filter_loop example_loads example_dumps
      [example_line_unresolved @ [CHR 0x0A], example_line_Ann @ [CHR 0x0A],
       example_line_Bob @ [CHR 0x0A]] [])) =
       [Inr (PDict example_quote), Inr (PDict example_quote_Q7)]"
proof -
  let ?lines = "[example_line_unresolved @ [CHR 0x0A], example_line_Ann @ [CHR 0x0A],
       example_line_Bob @ [CHR 0x0A]]"
  have wf: "\<forall>l \<in> set ?lines.
              \<exists>r. example_loads l = Inr (PDict r) \<and> dict_contains r ''speaker''"
    by (simp add: example_loads_lines example_speakers)
  have rt: "\<forall>l \<in> set ?lines.
               example_loads (example_dumps (parsed example_loads l) @ [CHR 0x0A]) =
                 Inr (parsed example_loads l)"
    by (simp add: parsed_def example_loads_lines example_dumps_records)
  show ?thesis
    using filter_keeps_resolved_speakers [OF wf rt]
    by (simp add: parsed_def example_loads_lines example_dumps_records example_speakers)
qed

end
